theory Spec2Isabelle
  imports Main "HOL-Library.AList"
begin

section \<open>The CDP relay of dev-browser (serveRelay)\<close>

text \<open>
  A shallow embedding of \<^verbatim>\<open>serveRelay\<close>, the relay between the browser extension and the
  automation (Patchright) clients. The closure variables of \<^verbatim>\<open>serveRelay\<close> become one record
  of state; every handler takes the state and the current clock reading and returns the new
  state, the frames it wrote (as a list of effects, in order) and the promises it settled.
  JavaScript \<^verbatim>\<open>Map\<close>s are association lists in insertion order: \<^const>\<open>AList.update\<close> keeps
  the place of an existing key and appends a new one, as \<^verbatim>\<open>Map.set\<close> does;
  \<^const>\<open>AList.delete\<close> is \<^verbatim>\<open>Map.delete\<close>; \<^const>\<open>map_of\<close> is \<^verbatim>\<open>Map.get\<close>.
  Sockets are handles (natural numbers). Console logging is left out.
\<close>

subsection \<open>Data\<close>

type_synonym WSContext = nat

record TargetInfo =
  ti_targetId :: string
  ti_type :: string
  ti_title :: string
  ti_url :: string
  ti_attached :: bool

record ConnectedTarget =
  sessionId :: string
  targetId :: string
  targetInfo :: TargetInfo

record PatchrightClient =
  client_id :: string
  ws :: WSContext
  knownTargets :: "string set"

text \<open>
  \<^verbatim>\<open>params?: Record<string, unknown>\<close>: the relay reads the properties \<^verbatim>\<open>targetId\<close>
  and \<^verbatim>\<open>discover\<close> (its truthiness) and writes \<^verbatim>\<open>url\<close> and \<^verbatim>\<open>targetId\<close>; the rest
  is opaque.
\<close>

record cdp_params =
  p_targetId :: "string option"
  p_discover :: bool
  p_url :: "string option"
  p_other :: string

record CDPCommand =
  cmd_id :: int
  cmd_method :: string
  cmd_params :: "cdp_params option"
  cmd_sessionId :: "string option"

text \<open>The result of an extension request has type \<^verbatim>\<open>unknown\<close>; only its \<^verbatim>\<open>targetId\<close> is read.\<close>

datatype jvalue = JUndefined | JObject "string option" string

text \<open>
  The \<^verbatim>\<open>Error\<close>s of the relay, by message:
  \<^verbatim>\<open>Extension not connected\<close>, \<^verbatim>\<open>Extension request timeout after ${timeout}ms: ${method}\<close>,
  \<^verbatim>\<open>Extension connection replaced\<close>, \<^verbatim>\<open>Extension connection closed\<close>, the error string of a
  reply of the extension, \<^verbatim>\<open>Target created but not found in registry\<close>, a \<^verbatim>\<open>TypeError\<close> of
  the runtime, and the two bodies that are no \<^verbatim>\<open>Error\<close>: \<^verbatim>\<open>name is required\<close> and the
  framework's answer to an exception that escapes a route.
\<close>

datatype error =
    NotConnected
  | RequestTimeout nat string
  | ConnectionReplaced
  | ConnectionClosed
  | ExtensionError string
  | NotInRegistry
  | TypeError
  | NameRequired
  | InternalServerError

datatype cdp_result =
    VersionInfo
  | EmptyObject
  | SessionResult string
  | TargetInfoResult "TargetInfo option"
  | TargetInfosResult "TargetInfo list"
  | Forwarded jvalue

datatype cdp_event =
    EvAttachedToTarget string TargetInfo bool
  | EvTargetCreated TargetInfo
  | EvDetachedFromTarget string
  | EvTargetInfoChanged TargetInfo
  | EvForwarded "string option" string string

text \<open>\<^verbatim>\<open>CDPResponse | CDPEvent\<close>, what \<^verbatim>\<open>sendToPatchright\<close> serialises.\<close>

datatype client_message =
    Response int "string option" cdp_result
  | ErrorResponse int "string option" error
  | Event cdp_event

text \<open>\<^verbatim>\<open>{ id, method, params: { sessionId?, method, params } }\<close>, written to the extension.\<close>

datatype ext_request =
  ExtRequest (er_id: int) (er_method: string) (er_sessionId: "string option")
    (er_inner_method: string) (er_inner_params: "cdp_params option")

datatype http_body =
    ErrorBody error
  | PageBody string string
  | PagesBody "string list"
  | SuccessBody bool

datatype effect =
    ClientSend WSContext client_message
  | ClientCloseEff WSContext nat string
  | ExtSend WSContext ext_request
  | ExtCloseEff WSContext nat string
  | HttpResponse nat http_body
  | StartSleep nat string jvalue

text \<open>
  The code that waits on a promise of \<^verbatim>\<open>sendToExtension\<close>: the rest of the client's
  \<^verbatim>\<open>onMessage\<close>, or the rest of \<^verbatim>\<open>POST /pages\<close> after one of its three awaits.
\<close>

datatype cont =
    RouteCont string CDPCommand
  | PageReuseCont string ConnectedTarget
  | PageCreateCont string
  | PageActivateCont string ConnectedTarget

record pending_request =
  p_cont :: cont
  p_timeout :: nat
  p_method :: string

type_synonym settled = "cont \<times> (error + jvalue)"

record relay_state =
  connectedTargets :: "(string \<times> ConnectedTarget) list"
  namedPages :: "(string \<times> string) list"
  patchrightClients :: "(string \<times> PatchrightClient) list"
  extensionWs :: "WSContext option"
  extensionPendingRequests :: "(int \<times> pending_request) list"
  extensionMessageId :: int
  lastActivityAt :: nat

definition init_state :: relay_state where
  "init_state = \<lparr>connectedTargets = [], namedPages = [], patchrightClients = [],
     extensionWs = None, extensionPendingRequests = [], extensionMessageId = 0,
     lastActivityAt = 0\<rparr>"

text \<open>What \<^verbatim>\<open>JSON.parse\<close> makes of an inbound frame.\<close>

datatype 'a parsed = Malformed | Parsed 'a

text \<open>
  The inner event of a \<^verbatim>\<open>forwardCDPEvent\<close>, with the parameters the relay casts it to.
  \<open>OtherEvent\<close> stands for every method but the three the relay treats itself.
\<close>

datatype inner_event =
    AttachedToTarget string TargetInfo
  | DetachedFromTarget string
  | TargetInfoChanged TargetInfo
  | OtherEvent string string

datatype ext_message =
    ExtResponse int jvalue "string option"
  | ExtLog string "string list"
  | ExtEvent inner_event "string option"
  | ExtOther

subsection \<open>Helpers of the relay\<close>

text \<open>Truthiness of a \<^verbatim>\<open>string | undefined\<close>: defined and not empty.\<close>

definition truthy :: "string option \<Rightarrow> bool" where
  "truthy x = (case x of None \<Rightarrow> False | Some v \<Rightarrow> v \<noteq> [])"

definition markActivity :: "nat \<Rightarrow> relay_state \<Rightarrow> relay_state" where
  "markActivity now s = s\<lparr>lastActivityAt := now\<rparr>"

definition sendToPatchright ::
  "relay_state \<Rightarrow> client_message \<Rightarrow> string option \<Rightarrow> effect list" where
  "sendToPatchright s message clientId =
     (if truthy clientId then
        (case map_of (patchrightClients s) (the clientId) of
           Some client \<Rightarrow> [ClientSend (ws client) message]
         | None \<Rightarrow> [])
      else map (\<lambda>(k, client). ClientSend (ws client) message) (patchrightClients s))"

definition attachedEvent :: "ConnectedTarget \<Rightarrow> bool \<Rightarrow> client_message" where
  "attachedEvent target waitingForDebugger =
     Event (EvAttachedToTarget (sessionId target)
       ((targetInfo target)\<lparr>ti_attached := True\<rparr>) waitingForDebugger)"

text \<open>One round of the loop of \<^verbatim>\<open>sendAttachedToTarget\<close> over the clients.\<close>

definition noteTarget :: "string \<Rightarrow> PatchrightClient \<Rightarrow> PatchrightClient" where
  "noteTarget t client =
     (if t \<notin> knownTargets client
      then client\<lparr>knownTargets := insert t (knownTargets client)\<rparr> else client)"

definition sendAttachedToTarget ::
  "relay_state \<Rightarrow> ConnectedTarget \<Rightarrow> string option \<Rightarrow> bool \<Rightarrow> relay_state \<times> effect list" where
  "sendAttachedToTarget s target clientId waitingForDebugger =
     (if truthy clientId then
        (case map_of (patchrightClients s) (the clientId) of
           Some client \<Rightarrow>
             if targetId target \<notin> knownTargets client
             then (s\<lparr>patchrightClients :=
                       AList.update (the clientId) (noteTarget (targetId target) client)
                         (patchrightClients s)\<rparr>,
                   [ClientSend (ws client) (attachedEvent target waitingForDebugger)])
             else (s, [])
         | None \<Rightarrow> (s, []))
      else
        (s\<lparr>patchrightClients :=
              map (\<lambda>(k, client). (k, noteTarget (targetId target) client)) (patchrightClients s)\<rparr>,
         map (\<lambda>(k, client). ClientSend (ws client) (attachedEvent target waitingForDebugger))
           (filter (\<lambda>(k, client). targetId target \<notin> knownTargets client)
              (patchrightClients s))))"

text \<open>
  \<^verbatim>\<open>sendToExtension\<close> up to the promise it returns: the request is written and the record
  of the pending request stored under the fresh id, with the continuation that awaits it.
  The timer of the request is the event \<open>timerFired\<close> below.
\<close>

definition sendToExtension ::
  "relay_state \<Rightarrow> nat \<Rightarrow> string \<Rightarrow> string option \<Rightarrow> string \<Rightarrow> cdp_params option \<Rightarrow>
   nat option \<Rightarrow> cont \<Rightarrow> error + relay_state \<times> effect list" where
  "sendToExtension s now method sid inner_method inner_params timeout k =
     (case extensionWs s of
        None \<Rightarrow> Inl NotConnected
      | Some w \<Rightarrow>
          let t = (case timeout of None \<Rightarrow> 30000 | Some v \<Rightarrow> v);
              s1 = markActivity now s;
              i = extensionMessageId s1 + 1
          in Inr (s1\<lparr>extensionMessageId := i,
                     extensionPendingRequests :=
                       AList.update i \<lparr>p_cont = k, p_timeout = t, p_method = method\<rparr>
                         (extensionPendingRequests s1)\<rparr>,
                  [ExtSend w (ExtRequest i method sid inner_method inner_params)]))"

text \<open>The callback of the timer of request \<open>i\<close>; a timer that was cleared does not fire.\<close>

definition timerFired :: "relay_state \<Rightarrow> int \<Rightarrow> relay_state \<times> effect list \<times> settled list" where
  "timerFired s i =
     (case map_of (extensionPendingRequests s) i of
        None \<Rightarrow> (s, [], [])
      | Some p \<Rightarrow>
          (s\<lparr>extensionPendingRequests := AList.delete i (extensionPendingRequests s)\<rparr>, [],
           [(p_cont p, Inl (RequestTimeout (p_timeout p) (p_method p)))]))"

definition findByTargetId :: "relay_state \<Rightarrow> string \<Rightarrow> ConnectedTarget option" where
  "findByTargetId s tid = find (\<lambda>item. targetId item = tid) (map snd (connectedTargets s))"

datatype route_outcome =
    Returned cdp_result
  | Awaiting relay_state "effect list"
  | Threw error

definition emulated :: "string list" where
  "emulated = [''Browser.getVersion'', ''Target.setDiscoverTargets'', ''Target.setAutoAttach'',
     ''Target.getBrowserContexts'', ''Target.createBrowserContext'',
     ''Target.attachToBrowserTarget'', ''Target.attachToTarget'', ''Target.getTargetInfo'',
     ''Target.getTargets'']"

definition forwardToExtension ::
  "relay_state \<Rightarrow> nat \<Rightarrow> string option \<Rightarrow> string \<Rightarrow> cdp_params option \<Rightarrow> cont \<Rightarrow> route_outcome" where
  "forwardToExtension s now sid method params k =
     (case sendToExtension s now ''forwardCDPCommand'' sid method params None k of
        Inl e \<Rightarrow> Threw e
      | Inr (s', effs) \<Rightarrow> Awaiting s' effs)"

definition routeCdpCommand ::
  "relay_state \<Rightarrow> nat \<Rightarrow> string \<Rightarrow> cdp_params option \<Rightarrow> string option \<Rightarrow> cont \<Rightarrow> route_outcome" where
  "routeCdpCommand s now method params sid k =
     (if method = ''Browser.getVersion'' then Returned VersionInfo
      else if method = ''Target.setDiscoverTargets'' \<or> method = ''Target.setAutoAttach''
           \<or> method = ''Target.getBrowserContexts'' \<or> method = ''Target.createBrowserContext''
      then Returned EmptyObject
      else if method = ''Target.attachToBrowserTarget'' then Returned (SessionResult ''browser'')
      else if method = ''Target.attachToTarget'' then
        (let tid = (case params of None \<Rightarrow> None | Some p \<Rightarrow> p_targetId p) in
         if truthy tid then
           (case findByTargetId s (the tid) of
              Some target \<Rightarrow> Returned (SessionResult (sessionId target))
            | None \<Rightarrow> Returned EmptyObject)
         else Returned EmptyObject)
      else if method = ''Target.getTargetInfo'' then
        (let tid = (case params of None \<Rightarrow> None | Some p \<Rightarrow> p_targetId p);
             firstTarget = (case connectedTargets s of [] \<Rightarrow> None
                            | (k0, t0) # rest \<Rightarrow> Some (targetInfo t0)) in
         if truthy tid then
           (case findByTargetId s (the tid) of
              Some target \<Rightarrow> Returned (TargetInfoResult (Some (targetInfo target)))
            | None \<Rightarrow> Returned (TargetInfoResult firstTarget))
         else Returned (TargetInfoResult firstTarget))
      else if method = ''Target.getTargets'' then
        Returned (TargetInfosResult
          (map (\<lambda>(k0, item). (targetInfo item)\<lparr>ti_attached := True\<rparr>) (connectedTargets s)))
      else if method = ''Target.createTarget'' \<or> method = ''Target.closeTarget'' then
        forwardToExtension s now None method params k
      else forwardToExtension s now sid method params k)"

text \<open>The loop \<^verbatim>\<open>for (const target of connectedTargets.values()) sendAttachedToTarget(target, clientId)\<close>.\<close>

fun attachEach ::
  "relay_state \<Rightarrow> ConnectedTarget list \<Rightarrow> string option \<Rightarrow> relay_state \<times> effect list" where
  "attachEach s [] clientId = (s, [])"
| "attachEach s (target # rest) clientId =
     (let (s1, e1) = sendAttachedToTarget s target clientId False;
          (s2, e2) = attachEach s1 rest clientId
      in (s2, e1 @ e2))"

text \<open>
  The body of the \<^verbatim>\<open>try\<close> of the client's \<^verbatim>\<open>onMessage\<close> after
  \<^verbatim>\<open>await routeCdpCommand(...)\<close> has given \<open>result\<close>: its three conditional
  passes, then the reply.
\<close>

definition autoAttachPass ::
  "relay_state \<Rightarrow> string \<Rightarrow> CDPCommand \<Rightarrow> relay_state \<times> effect list" where
  "autoAttachPass s clientId cmd =
     (if cmd_method cmd = ''Target.setAutoAttach'' \<and> \<not> truthy (cmd_sessionId cmd)
      then attachEach s (map snd (connectedTargets s)) (Some clientId)
      else (s, []))"

definition discoverPass :: "relay_state \<Rightarrow> string \<Rightarrow> CDPCommand \<Rightarrow> effect list" where
  "discoverPass s clientId cmd =
     (if cmd_method cmd = ''Target.setDiscoverTargets''
         \<and> (case cmd_params cmd of None \<Rightarrow> False | Some p \<Rightarrow> p_discover p)
      then concat (map (\<lambda>(k0, target).
              sendToPatchright s
                (Event (EvTargetCreated ((targetInfo target)\<lparr>ti_attached := True\<rparr>)))
                (Some clientId)) (connectedTargets s))
      else [])"

definition attachToTargetPass ::
  "relay_state \<Rightarrow> string \<Rightarrow> CDPCommand \<Rightarrow> cdp_result \<Rightarrow> relay_state \<times> effect list" where
  "attachToTargetPass s clientId cmd result =
     (if cmd_method cmd = ''Target.attachToTarget''
         \<and> (case result of SessionResult r \<Rightarrow> r \<noteq> [] | _ \<Rightarrow> False)
      then (case (case cmd_params cmd of None \<Rightarrow> None | Some p \<Rightarrow> p_targetId p) of
              None \<Rightarrow> (s, [])
            | Some tid \<Rightarrow>
                (case findByTargetId s tid of
                   Some target \<Rightarrow> sendAttachedToTarget s target (Some clientId) False
                 | None \<Rightarrow> (s, [])))
      else (s, []))"

definition afterRoute ::
  "relay_state \<Rightarrow> string \<Rightarrow> CDPCommand \<Rightarrow> cdp_result \<Rightarrow> relay_state \<times> effect list" where
  "afterRoute s clientId cmd result =
     (let (s1, e1) = autoAttachPass s clientId cmd;
          e2 = discoverPass s1 clientId cmd;
          (s3, e3) = attachToTargetPass s1 clientId cmd result
      in (s3, e1 @ e2 @ e3 @
            sendToPatchright s3 (Response (cmd_id cmd) (cmd_sessionId cmd) result)
              (Some clientId)))"

subsection \<open>The automation-client channel: \<^verbatim>\<open>/cdp/:clientId?\<close>\<close>

definition client_onOpen ::
  "relay_state \<Rightarrow> nat \<Rightarrow> string \<Rightarrow> WSContext \<Rightarrow> relay_state \<times> effect list \<times> settled list" where
  "client_onOpen s now clientId w =
     (let s1 = markActivity now s in
      if map_of (patchrightClients s1) clientId \<noteq> None
      then (s1, [ClientCloseEff w 1000 ''Client ID already connected''], [])
      else (s1\<lparr>patchrightClients :=
                 AList.update clientId \<lparr>client_id = clientId, ws = w, knownTargets = {}\<rparr>
                   (patchrightClients s1)\<rparr>, [], []))"

definition client_onMessage ::
  "relay_state \<Rightarrow> nat \<Rightarrow> string \<Rightarrow> CDPCommand parsed \<Rightarrow> relay_state \<times> effect list \<times> settled list" where
  "client_onMessage s now clientId data =
     (let s1 = markActivity now s in
      case data of
        Malformed \<Rightarrow> (s1, [], [])
      | Parsed cmd \<Rightarrow>
          if extensionWs s1 = None
          then (s1, sendToPatchright s1
                      (ErrorResponse (cmd_id cmd) (cmd_sessionId cmd) NotConnected)
                      (Some clientId), [])
          else
            (case routeCdpCommand s1 now (cmd_method cmd) (cmd_params cmd) (cmd_sessionId cmd)
                    (RouteCont clientId cmd) of
               Returned result \<Rightarrow>
                 (let (s2, effs) = afterRoute s1 clientId cmd result in (s2, effs, []))
             | Awaiting s2 effs \<Rightarrow> (s2, effs, [])
             | Threw e \<Rightarrow>
                 (s1, sendToPatchright s1
                        (ErrorResponse (cmd_id cmd) (cmd_sessionId cmd) e) (Some clientId), [])))"

definition client_onClose ::
  "relay_state \<Rightarrow> nat \<Rightarrow> string \<Rightarrow> relay_state \<times> effect list \<times> settled list" where
  "client_onClose s now clientId =
     (let s1 = markActivity now s in
      (s1\<lparr>patchrightClients := AList.delete clientId (patchrightClients s1)\<rparr>, [], []))"

subsection \<open>The browser-side channel: \<^verbatim>\<open>/extension\<close>\<close>

definition rejectAll :: "error \<Rightarrow> (int \<times> pending_request) list \<Rightarrow> settled list" where
  "rejectAll e pend = map (\<lambda>(i, p). (p_cont p, Inl e)) pend"

definition ext_onOpen ::
  "relay_state \<Rightarrow> nat \<Rightarrow> WSContext \<Rightarrow> relay_state \<times> effect list \<times> settled list" where
  "ext_onOpen s now w =
     (let s1 = markActivity now s in
      case extensionWs s1 of
        Some old \<Rightarrow>
          (s1\<lparr>connectedTargets := [], namedPages := [], extensionPendingRequests := [],
              extensionWs := Some w\<rparr>,
           [ExtCloseEff old 4001 ''Extension Replaced''],
           rejectAll ConnectionReplaced (extensionPendingRequests s1))
      | None \<Rightarrow> (s1\<lparr>extensionWs := Some w\<rparr>, [], []))"

text \<open>
  The loop of the detach handler over \<^verbatim>\<open>namedPages\<close>: it deletes the first name bound to
  the session and leaves the loop.
\<close>

fun unbindFirst :: "string \<Rightarrow> (string \<times> string) list \<Rightarrow> (string \<times> string) list" where
  "unbindFirst sid [] = []"
| "unbindFirst sid ((name, s0) # rest) =
     (if s0 = sid then rest else (name, s0) # unbindFirst sid rest)"

text \<open>
  The loop of the info-changed handler: the first target with the target id of the event
  takes the new info.
\<close>

fun updateInfo ::
  "TargetInfo \<Rightarrow> (string \<times> ConnectedTarget) list \<Rightarrow> (string \<times> ConnectedTarget) list" where
  "updateInfo info [] = []"
| "updateInfo info ((k, target) # rest) =
     (if targetId target = ti_targetId info
      then (k, target\<lparr>targetInfo := info\<rparr>) # rest
      else (k, target) # updateInfo info rest)"

definition ext_onMessage ::
  "relay_state \<Rightarrow> nat \<Rightarrow> WSContext \<Rightarrow> ext_message parsed \<Rightarrow>
   relay_state \<times> effect list \<times> settled list" where
  "ext_onMessage s now w data =
     (let s1 = markActivity now s in
      case data of
        Malformed \<Rightarrow> (s1, [ExtCloseEff w 1000 ''Invalid JSON''], [])
      | Parsed (ExtResponse i result err) \<Rightarrow>
          (case map_of (extensionPendingRequests s1) i of
             None \<Rightarrow> (s1, [], [])
           | Some pending \<Rightarrow>
               (s1\<lparr>extensionPendingRequests := AList.delete i (extensionPendingRequests s1)\<rparr>,
                [],
                [(p_cont pending,
                  if truthy err then Inl (ExtensionError (the err)) else Inr result)]))
      | Parsed (ExtLog level args) \<Rightarrow> (s1, [], [])
      | Parsed (ExtEvent (AttachedToTarget sid info) outer) \<Rightarrow>
          (let target = \<lparr>sessionId = sid, targetId = ti_targetId info, targetInfo = info\<rparr>;
               s2 = s1\<lparr>connectedTargets := AList.update sid target (connectedTargets s1)\<rparr>;
               (s3, effs) = sendAttachedToTarget s2 target None False
           in (s3, effs, []))
      | Parsed (ExtEvent (DetachedFromTarget sid) outer) \<Rightarrow>
          (let s2 = s1\<lparr>connectedTargets := AList.delete sid (connectedTargets s1),
                       namedPages := unbindFirst sid (namedPages s1)\<rparr>
           in (s2, sendToPatchright s2 (Event (EvDetachedFromTarget sid)) None, []))
      | Parsed (ExtEvent (TargetInfoChanged info) outer) \<Rightarrow>
          (let s2 = s1\<lparr>connectedTargets := updateInfo info (connectedTargets s1)\<rparr>
           in (s2, sendToPatchright s2 (Event (EvTargetInfoChanged info)) None, []))
      | Parsed (ExtEvent (OtherEvent method params) outer) \<Rightarrow>
          (s1, sendToPatchright s1 (Event (EvForwarded outer method params)) None, [])
      | Parsed ExtOther \<Rightarrow> (s1, [], []))"

definition ext_onClose ::
  "relay_state \<Rightarrow> nat \<Rightarrow> WSContext \<Rightarrow> relay_state \<times> effect list \<times> settled list" where
  "ext_onClose s now w =
     (let s1 = markActivity now s in
      if extensionWs s1 \<noteq> None \<and> extensionWs s1 \<noteq> Some w then (s1, [], [])
      else
        (s1\<lparr>extensionPendingRequests := [], extensionWs := None, connectedTargets := [],
            namedPages := [], patchrightClients := []\<rparr>,
         map (\<lambda>(k, client). ClientCloseEff (ws client) 1000 ''Extension disconnected'')
           (patchrightClients s1),
         rejectAll ConnectionClosed (extensionPendingRequests s1)))"

subsection \<open>The page directory: \<^verbatim>\<open>/pages\<close>\<close>

text \<open>
  The bodies of the answers keep \<^verbatim>\<open>name\<close> and \<^verbatim>\<open>targetId\<close>; \<^verbatim>\<open>wsEndpoint\<close> is
  a constant of the server and \<^verbatim>\<open>url\<close> is left out. An exception that escapes a route is
  answered by the framework with status 500.
\<close>

definition getPages :: "relay_state \<Rightarrow> nat \<Rightarrow> relay_state \<times> effect list \<times> settled list" where
  "getPages s now =
     (let s1 = markActivity now s in
      (s1, [HttpResponse 200 (PagesBody (map fst (namedPages s1)))], []))"

definition activateParams :: "string \<Rightarrow> cdp_params" where
  "activateParams tid = \<lparr>p_targetId = Some tid, p_discover = False, p_url = None, p_other = []\<rparr>"

definition createParams :: cdp_params where
  "createParams = \<lparr>p_targetId = None, p_discover = False, p_url = Some ''about:blank'', p_other = []\<rparr>"

text \<open>\<^verbatim>\<open>POST /pages\<close> from the check of the extension to the first await of the creation.\<close>

definition createPage ::
  "relay_state \<Rightarrow> nat \<Rightarrow> string \<Rightarrow> relay_state \<times> effect list \<times> settled list" where
  "createPage s now name =
     (case sendToExtension s now ''forwardCDPCommand'' None ''Target.createTarget''
             (Some createParams) None (PageCreateCont name) of
        Inl e \<Rightarrow> (s, [HttpResponse 503 (ErrorBody NotConnected)], [])
      | Inr (s', effs) \<Rightarrow> (s', effs, []))"

definition postPages ::
  "relay_state \<Rightarrow> nat \<Rightarrow> string option \<Rightarrow> relay_state \<times> effect list \<times> settled list" where
  "postPages s now name =
     (let s1 = markActivity now s in
      if \<not> truthy name then (s1, [HttpResponse 400 (ErrorBody NameRequired)], [])
      else
        (let n = the name; existingSessionId = map_of (namedPages s1) n in
         if truthy existingSessionId then
           (case map_of (connectedTargets s1) (the existingSessionId) of
              Some target \<Rightarrow>
                (case sendToExtension s1 now ''forwardCDPCommand'' None ''Target.activateTarget''
                        (Some (activateParams (targetId target))) None
                        (PageReuseCont n target) of
                   Inl e \<Rightarrow> (s1, [HttpResponse 500 (ErrorBody InternalServerError)], [])
                 | Inr (s2, effs) \<Rightarrow> (s2, effs, []))
            | None \<Rightarrow>
                createPage (s1\<lparr>namedPages := AList.delete n (namedPages s1)\<rparr>) now n)
         else createPage s1 now n))"

text \<open>
  \<^verbatim>\<open>POST /pages\<close> after the 200 ms sleep: the loop over \<^verbatim>\<open>connectedTargets\<close> for the
  target id of the result, the binding of the name and the request to activate the tab.
\<close>

definition afterSleep ::
  "relay_state \<Rightarrow> nat \<Rightarrow> string \<Rightarrow> jvalue \<Rightarrow> relay_state \<times> effect list \<times> settled list" where
  "afterSleep s now name result =
     (case result of
        JUndefined \<Rightarrow>
          (if connectedTargets s = []
           then (s, [HttpResponse 500 (ErrorBody NotInRegistry)], [])
           else (s, [HttpResponse 500 (ErrorBody TypeError)], []))
      | JObject tid other \<Rightarrow>
          (case find (\<lambda>(sid, target). Some (targetId target) = tid) (connectedTargets s) of
             None \<Rightarrow> (s, [HttpResponse 500 (ErrorBody NotInRegistry)], [])
           | Some (sid, target) \<Rightarrow>
               (let s1 = s\<lparr>namedPages := AList.update name sid (namedPages s)\<rparr> in
                case sendToExtension s1 now ''forwardCDPCommand'' None ''Target.activateTarget''
                       (Some (activateParams (targetId target))) None
                       (PageActivateCont name target) of
                  Inl e \<Rightarrow> (s1, [HttpResponse 500 (ErrorBody e)], [])
                | Inr (s2, effs) \<Rightarrow> (s2, effs, []))))"

definition deletePage ::
  "relay_state \<Rightarrow> nat \<Rightarrow> string \<Rightarrow> relay_state \<times> effect list \<times> settled list" where
  "deletePage s now name =
     (let s1 = markActivity now s in
      (s1\<lparr>namedPages := AList.delete name (namedPages s1)\<rparr>,
       [HttpResponse 200 (SuccessBody (map_of (namedPages s1) name \<noteq> None))], []))"

subsection \<open>Settled promises and the event loop\<close>

text \<open>What the awaiting code does once its promise is resolved or rejected.\<close>

definition resume :: "relay_state \<Rightarrow> cont \<Rightarrow> error + jvalue \<Rightarrow> relay_state \<times> effect list" where
  "resume s k outcome =
     (case k of
        RouteCont clientId cmd \<Rightarrow>
          (case outcome of
             Inr result \<Rightarrow> afterRoute s clientId cmd (Forwarded result)
           | Inl e \<Rightarrow>
               (s, sendToPatchright s (ErrorResponse (cmd_id cmd) (cmd_sessionId cmd) e)
                     (Some clientId)))
      | PageReuseCont name target \<Rightarrow>
          (case outcome of
             Inr result \<Rightarrow> (s, [HttpResponse 200 (PageBody name (targetId target))])
           | Inl e \<Rightarrow> (s, [HttpResponse 500 (ErrorBody InternalServerError)]))
      | PageCreateCont name \<Rightarrow>
          (case outcome of
             Inr result \<Rightarrow> (s, [StartSleep 200 name result])
           | Inl e \<Rightarrow> (s, [HttpResponse 500 (ErrorBody e)]))
      | PageActivateCont name target \<Rightarrow>
          (case outcome of
             Inr result \<Rightarrow> (s, [HttpResponse 200 (PageBody name (targetId target))])
           | Inl e \<Rightarrow> (s, [HttpResponse 500 (ErrorBody e)])))"

fun resumeAll :: "relay_state \<Rightarrow> settled list \<Rightarrow> relay_state \<times> effect list" where
  "resumeAll s [] = (s, [])"
| "resumeAll s ((k, outcome) # rest) =
     (let (s1, e1) = resume s k outcome;
          (s2, e2) = resumeAll s1 rest
      in (s2, e1 @ e2))"

datatype event =
    ClientOpen string WSContext
  | ClientMessage string "CDPCommand parsed"
  | ClientClose string
  | ExtOpen WSContext
  | ExtMessage WSContext "ext_message parsed"
  | ExtClose WSContext
  | TimerFired int
  | SleepDone string jvalue
  | GetPages
  | PostPages "string option"
  | DeletePage string

definition handle ::
  "relay_state \<Rightarrow> nat \<Rightarrow> event \<Rightarrow> relay_state \<times> effect list \<times> settled list" where
  "handle s now ev =
     (case ev of
        ClientOpen clientId w \<Rightarrow> client_onOpen s now clientId w
      | ClientMessage clientId data \<Rightarrow> client_onMessage s now clientId data
      | ClientClose clientId \<Rightarrow> client_onClose s now clientId
      | ExtOpen w \<Rightarrow> ext_onOpen s now w
      | ExtMessage w data \<Rightarrow> ext_onMessage s now w data
      | ExtClose w \<Rightarrow> ext_onClose s now w
      | TimerFired i \<Rightarrow> timerFired s i
      | SleepDone name result \<Rightarrow> afterSleep s now name result
      | GetPages \<Rightarrow> getPages s now
      | PostPages name \<Rightarrow> postPages s now name
      | DeletePage name \<Rightarrow> deletePage s now name)"

text \<open>One turn of the event loop: the handler, then the code its settled promises wake.\<close>

definition step :: "relay_state \<Rightarrow> nat \<Rightarrow> event \<Rightarrow> relay_state \<times> effect list" where
  "step s now ev =
     (let (s1, e1, done) = handle s now ev;
          (s2, e2) = resumeAll s1 done
      in (s2, e1 @ e2))"

fun run :: "relay_state \<Rightarrow> (nat \<times> event) list \<Rightarrow> relay_state \<times> effect list" where
  "run s [] = (s, [])"
| "run s ((now, ev) # rest) =
     (let (s1, e1) = step s now ev;
          (s2, e2) = run s1 rest
      in (s2, e1 @ e2))"

subsection \<open>Concrete states and observations\<close>

definition exTarget :: ConnectedTarget where
  "exTarget = \<lparr>sessionId = ''S1'', targetId = ''T1'',
     targetInfo = \<lparr>ti_targetId = ''T1'', ti_type = ''page'', ti_title = ''a'', ti_url = ''u'',
       ti_attached = True\<rparr>\<rparr>"

text \<open>
  A relay with the extension on socket 1, one tab, the page \<open>demo\<close> bound to it, one
  client on socket 2 and one request awaiting its reply: the create-target command of a
  page \<open>x\<close>. It is the state the relay is in after the events of \<open>exTrace\<close>.
\<close>

definition exState :: relay_state where
  "exState = \<lparr>connectedTargets = [(''S1'', exTarget)],
     namedPages = [(''demo'', ''S1'')],
     patchrightClients = [(''c1'', \<lparr>client_id = ''c1'', ws = 2, knownTargets = {''T1''}\<rparr>)],
     extensionWs = Some 1,
     extensionPendingRequests =
       [(3, \<lparr>p_cont = PageCreateCont ''x'', p_timeout = 30000, p_method = ''forwardCDPCommand''\<rparr>)],
     extensionMessageId = 3, lastActivityAt = 8\<rparr>"




definition isClientSend :: "effect \<Rightarrow> bool" where
  "isClientSend e = (case e of ClientSend w m \<Rightarrow> True | _ \<Rightarrow> False)"



definition getVersion :: CDPCommand where
  "getVersion = \<lparr>cmd_id = 1, cmd_method = ''Browser.getVersion'', cmd_params = None,
     cmd_sessionId = None\<rparr>"

definition setAutoAttach :: CDPCommand where
  "setAutoAttach = \<lparr>cmd_id = 2, cmd_method = ''Target.setAutoAttach'', cmd_params = None,
     cmd_sessionId = None\<rparr>"


definition tabInfo :: TargetInfo where
  "tabInfo = \<lparr>ti_targetId = ''T1'', ti_type = ''page'', ti_title = ''a'', ti_url = ''u'',
     ti_attached = True\<rparr>"

text \<open>
  The extension connects on socket 1 and a client on socket 2; the page \<open>demo\<close> is
  requested and created; then a page \<open>x\<close> is requested.
\<close>

definition exTrace :: "(nat \<times> event) list" where
  "exTrace =
     [(1, ExtOpen 1),
      (2, ClientOpen ''c1'' 2),
      (3, PostPages (Some ''demo'')),
      (4, ExtMessage 1 (Parsed (ExtEvent (AttachedToTarget ''S1'' tabInfo) None))),
      (5, ExtMessage 1 (Parsed (ExtResponse 1 (JObject (Some ''T1'') []) None))),
      (6, SleepDone ''demo'' (JObject (Some ''T1'') [])),
      (7, ExtMessage 1 (Parsed (ExtResponse 2 JUndefined None))),
      (8, PostPages (Some ''x''))]"

text \<open>A client connects on socket 2 while there is no browser-side connection, and asks
  for the version of the browser.\<close>

definition idleTrace :: "(nat \<times> event) list" where
  "idleTrace = [(1, ClientOpen ''c1'' 2), (2, ClientMessage ''c1'' (Parsed getVersion))]"

text \<open>Two clients open \<^verbatim>\<open>/cdp/x\<close>, the first on socket 1, the second on socket 2.\<close>

definition duplicateTrace :: "(nat \<times> event) list" where
  "duplicateTrace = [(1, ExtOpen 9), (2, ClientOpen ''x'' 1), (3, ClientOpen ''x'' 2)]"

text \<open>
  Two pages are requested, \<open>a\<close> and \<open>b\<close>, and the extension answers both
  \<^verbatim>\<open>Target.createTarget\<close> commands with the target id of the same tab.
\<close>

definition twoNamesTrace :: "(nat \<times> event) list" where
  "twoNamesTrace =
     [(1, ExtOpen 9),
      (2, PostPages (Some ''a'')),
      (3, ExtMessage 9 (Parsed (ExtEvent (AttachedToTarget ''S1'' tabInfo) None))),
      (4, ExtMessage 9 (Parsed (ExtResponse 1 (JObject (Some ''T1'') []) None))),
      (5, SleepDone ''a'' (JObject (Some ''T1'') [])),
      (6, ExtMessage 9 (Parsed (ExtResponse 2 JUndefined None))),
      (7, PostPages (Some ''b'')),
      (8, ExtMessage 9 (Parsed (ExtResponse 3 (JObject (Some ''T1'') []) None))),
      (9, SleepDone ''b'' (JObject (Some ''T1'') [])),
      (10, ExtMessage 9 (Parsed (ExtResponse 4 JUndefined None)))]"

definition detachS1 :: "(nat \<times> event) list" where
  "detachS1 = [(11, ExtMessage 9 (Parsed (ExtEvent (DetachedFromTarget ''S1'') None)))]"






text \<open>
  A client is connected on socket 2 when the tab \<open>T1\<close> is attached as session \<open>S1\<close>,
  detached, and attached again as session \<open>S2\<close>; then the client enables auto-attach.
\<close>

definition reattachTrace :: "(nat \<times> event) list" where
  "reattachTrace =
     [(1, ExtOpen 9),
      (2, ClientOpen ''c1'' 2),
      (3, ExtMessage 9 (Parsed (ExtEvent (AttachedToTarget ''S1'' tabInfo) None))),
      (4, ExtMessage 9 (Parsed (ExtEvent (DetachedFromTarget ''S1'') None))),
      (5, ExtMessage 9 (Parsed (ExtEvent (AttachedToTarget ''S2'' tabInfo) None))),
      (6, ClientMessage ''c1'' (Parsed setAutoAttach))]"

subsection \<open>Counting notifications, and the invariants of the client registry\<close>

text \<open>
  \<open>attachedCount w t effs\<close> is the number of \<^verbatim>\<open>Target.attachedToTarget\<close> events for
  the target id \<open>t\<close> written to socket \<open>w\<close> in \<open>effs\<close>; \<open>openedSockets\<close> lists the
  sockets of the client connections a trace opens.
\<close>

definition isAttachedFor :: "WSContext \<Rightarrow> string \<Rightarrow> effect \<Rightarrow> bool" where
  "isAttachedFor w t e =
     (case e of
        ClientSend w' (Event (EvAttachedToTarget sid info wfd)) \<Rightarrow> w' = w \<and> ti_targetId info = t
      | _ \<Rightarrow> False)"


definition isAttached :: "effect \<Rightarrow> bool" where
  "isAttached e =
     (case e of ClientSend w' (Event (EvAttachedToTarget sid info wfd)) \<Rightarrow> True | _ \<Rightarrow> False)"

text \<open>
  \<open>sessionCount w sid t effs\<close> is the number of those events that announce the target id
  \<open>t\<close> under the session id \<open>sid\<close>. \<open>reportedAs es\<close> lists, as pairs of session id and
  target id, the attach events the browser side sends in a trace; \<open>reportedOnlyAs es t sid\<close>
  says that the trace attaches the target id \<open>t\<close> under no session id but \<open>sid\<close>.
\<close>

definition isAttachedSession :: "WSContext \<Rightarrow> string \<Rightarrow> string \<Rightarrow> effect \<Rightarrow> bool" where
  "isAttachedSession w sid t e =
     (case e of
        ClientSend w' (Event (EvAttachedToTarget sid' info wfd)) \<Rightarrow>
          w' = w \<and> sid' = sid \<and> ti_targetId info = t
      | _ \<Rightarrow> False)"

definition sessionCount :: "WSContext \<Rightarrow> string \<Rightarrow> string \<Rightarrow> effect list \<Rightarrow> nat" where
  "sessionCount w sid t effs = length (filter (isAttachedSession w sid t) effs)"

definition reported :: "event \<Rightarrow> (string \<times> string) list" where
  "reported ev =
     (case ev of
        ExtMessage w (Parsed (ExtEvent (AttachedToTarget sid info) outer)) \<Rightarrow>
          [(sid, ti_targetId info)]
      | _ \<Rightarrow> [])"

definition reportedAs :: "(nat \<times> event) list \<Rightarrow> (string \<times> string) list" where
  "reportedAs es = concat (map (\<lambda>(now, ev). reported ev) es)"

definition reportedOnlyAs :: "(nat \<times> event) list \<Rightarrow> string \<Rightarrow> string \<Rightarrow> bool" where
  "reportedOnlyAs es t sid = list_all (\<lambda>(sid', t'). t' = t \<longrightarrow> sid' = sid) (reportedAs es)"



definition wfTargets :: "relay_state \<Rightarrow> bool" where
  "wfTargets s = (\<forall>(k, target) \<in> set (connectedTargets s).
      ti_targetId (targetInfo target) = targetId target)"







text \<open>
  How the pending requests may change over events: the counter of request ids never goes
  down, and the record of an id that has been issued stays as it is or is removed.
\<close>

definition pendingStep :: "relay_state \<Rightarrow> relay_state \<Rightarrow> bool" where
  "pendingStep s s' \<longleftrightarrow>
     extensionMessageId s \<le> extensionMessageId s'
   \<and> (\<forall>i. i \<le> extensionMessageId s \<longrightarrow>
          map_of (extensionPendingRequests s') i = map_of (extensionPendingRequests s) i
        \<or> map_of (extensionPendingRequests s') i = None)"

section \<open>Properties\<close>

subsection \<open>The example state is reachable\<close>

lemma exState_reachable: "fst (run init_state exTrace) = exState"
  by (simp add: exTrace_def exState_def exTarget_def tabInfo_def init_state_def step_def handle_def
    client_onOpen_def client_onClose_def client_onMessage_def ext_onOpen_def ext_onMessage_def
    postPages_def createPage_def afterSleep_def sendToExtension_def markActivity_def truthy_def
    sendAttachedToTarget_def sendToPatchright_def resume_def routeCdpCommand_def afterRoute_def
    autoAttachPass_def discoverPass_def attachToTargetPass_def findByTargetId_def
    activateParams_def createParams_def attachedEvent_def noteTarget_def Let_def)

subsection \<open>Requests to the extension\<close>

lemma sendToExtension_connected:
  "extensionWs s = Some w \<Longrightarrow>
   sendToExtension s now method sid im ip timeout k =
     Inr (s\<lparr>lastActivityAt := now, extensionMessageId := extensionMessageId s + 1,
           extensionPendingRequests :=
             AList.update (extensionMessageId s + 1)
               \<lparr>p_cont = k, p_timeout = (case timeout of None \<Rightarrow> 30000 | Some v \<Rightarrow> v),
                  p_method = method\<rparr>
               (extensionPendingRequests s)\<rparr>,
          [ExtSend w (ExtRequest (extensionMessageId s + 1) method sid im ip)])"
  by (simp add: sendToExtension_def markActivity_def Let_def)


lemma map_of_delete_same: "map_of (AList.delete k al) k = None"
  by (simp add: delete_conv')

subsection \<open>Replacement of the browser-side connection\<close>




text \<open>
  The guard of the close handler lets a channel other than the active one pass only while
  some channel is active: a close event that arrives while none is active runs the
  teardown.
\<close>

lemma close_while_disconnected:
  "extensionWs s = None \<Longrightarrow>
   ext_onClose s now old =
     (s\<lparr>lastActivityAt := now, extensionPendingRequests := [], extensionWs := None,
         connectedTargets := [], namedPages := [], patchrightClients := []\<rparr>,
      map (\<lambda>(k, client). ClientCloseEff (ws client) 1000 ''Extension disconnected'')
        (patchrightClients s),
      rejectAll ConnectionClosed (extensionPendingRequests s))"
  by (simp add: ext_onClose_def markActivity_def)

subsection \<open>Close of the browser-side connection\<close>

text \<open>
  Claim C6. When the active browser-side connection closes, every pending request is
  rejected at once with the error of a closed connection, and no pending record is left:
  no timer of a request has anything to fire for afterwards.
\<close>

theorem ext_onClose_fails_pending:
  assumes "extensionWs s = Some w"
  shows "case ext_onClose s now w of
           (s', effs, done) \<Rightarrow>
              done = map (\<lambda>(i, p). (p_cont p, Inl ConnectionClosed)) (extensionPendingRequests s)
            \<and> extensionPendingRequests s' = []
            \<and> (\<forall>i. timerFired s' i = (s', [], []))"
  using assms by (simp add: ext_onClose_def markActivity_def rejectAll_def timerFired_def)

theorem ext_onClose_fails_pending_witness:
  "extensionWs exState = Some 1 \<and>
   snd (snd (ext_onClose exState 9 1)) = [(PageCreateCont ''x'', Inl ConnectionClosed)] \<and>
   extensionPendingRequests (fst (ext_onClose exState 9 1)) = [] \<and>
   timerFired (fst (ext_onClose exState 9 1)) 3 = (fst (ext_onClose exState 9 1), [], [])"
  using ext_onClose_fails_pending [of exState 1 9]
  by (simp add: exState_def ext_onClose_def markActivity_def rejectAll_def)

subsection \<open>Frames that are not JSON\<close>




subsection \<open>Two connections with one client id\<close>

text \<open>
  Claim C2. The second connection with a client id that is registered is closed at once
  with the reason of a duplicate id and nothing is stored for it, and with no further event
  the first connection is answered as before (first equation). But the close event of the
  rejected connection runs the same \<^verbatim>\<open>onClose\<close>, which deletes the entry of that
  client id, the first connection's: afterwards the registry is empty and a command of the
  first connection gets no answer at all (second equation).
\<close>

theorem duplicate_close_unregisters_first:
  "run init_state (duplicateTrace @ [(4, ClientMessage ''x'' (Parsed getVersion))])
     = (init_state\<lparr>extensionWs := Some 9, lastActivityAt := 4,
          patchrightClients := [(''x'', \<lparr>client_id = ''x'', ws = 1, knownTargets = {}\<rparr>)]\<rparr>,
        [ClientCloseEff 2 1000 ''Client ID already connected'',
         ClientSend 1 (Response 1 None VersionInfo)])
   \<and> run init_state (duplicateTrace @
          [(4, ClientClose ''x''), (5, ClientMessage ''x'' (Parsed getVersion))])
     = (init_state\<lparr>extensionWs := Some 9, lastActivityAt := 5\<rparr>,
        [ClientCloseEff 2 1000 ''Client ID already connected''])"
  by (simp add: duplicateTrace_def getVersion_def init_state_def step_def handle_def
    client_onOpen_def client_onClose_def client_onMessage_def ext_onOpen_def ext_onMessage_def
    postPages_def createPage_def afterSleep_def sendToExtension_def markActivity_def truthy_def
    sendAttachedToTarget_def sendToPatchright_def resume_def routeCdpCommand_def afterRoute_def
    autoAttachPass_def discoverPass_def attachToTargetPass_def findByTargetId_def
    activateParams_def createParams_def Let_def)

subsection \<open>Detached targets and the names bound to them\<close>

text \<open>
  Claim C3. A detach event removes the session from the target registry, whatever the
  state. The cascade to the page directory stops at the first name bound to the session:
  with the names \<open>a\<close> and \<open>b\<close> both bound to session \<open>S1\<close>, the detach of \<open>S1\<close>
  empties the registry and leaves \<open>b\<close> resolving to \<open>S1\<close>.
\<close>

theorem detach_leaves_second_name:
  "map_of (connectedTargets (fst (step s now
      (ExtMessage w (Parsed (ExtEvent (DetachedFromTarget sid) outer)))))) sid = None
   \<and> namedPages (fst (run init_state twoNamesTrace)) = [(''a'', ''S1''), (''b'', ''S1'')]
   \<and> map fst (connectedTargets (fst (run init_state twoNamesTrace))) = [''S1'']
   \<and> namedPages (fst (run init_state (twoNamesTrace @ detachS1))) = [(''b'', ''S1'')]
   \<and> connectedTargets (fst (run init_state (twoNamesTrace @ detachS1))) = []"
proof -
  have "map_of (connectedTargets (fst (step s now
      (ExtMessage w (Parsed (ExtEvent (DetachedFromTarget sid) outer)))))) sid = None"
    by (simp add: step_def handle_def ext_onMessage_def markActivity_def map_of_delete_same Let_def)
  moreover have "namedPages (fst (run init_state twoNamesTrace)) = [(''a'', ''S1''), (''b'', ''S1'')]
   \<and> map fst (connectedTargets (fst (run init_state twoNamesTrace))) = [''S1'']
   \<and> namedPages (fst (run init_state (twoNamesTrace @ detachS1))) = [(''b'', ''S1'')]
   \<and> connectedTargets (fst (run init_state (twoNamesTrace @ detachS1))) = []"
    by (simp add: twoNamesTrace_def detachS1_def tabInfo_def init_state_def step_def handle_def
    client_onOpen_def client_onClose_def client_onMessage_def ext_onOpen_def ext_onMessage_def
    postPages_def createPage_def afterSleep_def sendToExtension_def markActivity_def truthy_def
    sendAttachedToTarget_def sendToPatchright_def resume_def routeCdpCommand_def afterRoute_def
    autoAttachPass_def discoverPass_def attachToTargetPass_def findByTargetId_def
    activateParams_def createParams_def Let_def)
  ultimately show ?thesis by blast
qed

subsection \<open>Commands answered by the relay itself\<close>

lemma sendToPatchright_sends: "list_all isClientSend (sendToPatchright s m c)"
  by (auto simp: sendToPatchright_def isClientSend_def list_all_iff split: option.splits)

lemma noteTarget_simps [simp]:
  "ws (noteTarget t c) = ws c"
  "knownTargets (noteTarget t c) = insert t (knownTargets c)"
  by (auto simp: noteTarget_def)

lemma sendAttachedToTarget_frame:
  assumes "sendAttachedToTarget s target c wfd = (s', effs)"
  shows "s' = s\<lparr>patchrightClients := patchrightClients s'\<rparr>
    \<and> list_all isClientSend effs
    \<and> map_option ws (map_of (patchrightClients s') k) = map_option ws (map_of (patchrightClients s) k)"
  using assms
  by (auto simp: sendAttachedToTarget_def isClientSend_def list_all_iff update_conv' map_of_map
        option.map_comp comp_def split: option.splits if_splits)

lemma attachEach_frame:
  assumes "attachEach s targets c = (s', effs)"
  shows "s' = s\<lparr>patchrightClients := patchrightClients s'\<rparr>
    \<and> list_all isClientSend effs
    \<and> map_option ws (map_of (patchrightClients s') k) = map_option ws (map_of (patchrightClients s) k)"
  using assms
proof (induction targets arbitrary: s s' effs)
  case Nil
  then show ?case by simp
next
  case (Cons target rest)
  obtain s1 e1 where h1: "sendAttachedToTarget s target c False = (s1, e1)"
    by (cases "sendAttachedToTarget s target c False")
  obtain s2 e2 where h2: "attachEach s1 rest c = (s2, e2)"
    by (cases "attachEach s1 rest c")
  from Cons.prems h1 h2 have eq: "s' = s2" "effs = e1 @ e2" by simp_all
  note f1 = sendAttachedToTarget_frame [OF h1, of k]
  note f2 = Cons.IH [OF h2]
  from f1 have a: "s1 = s\<lparr>patchrightClients := patchrightClients s1\<rparr>" by blast
  from f2 have b: "s2 = s1\<lparr>patchrightClients := patchrightClients s2\<rparr>" by blast
  have "s2 = s\<lparr>patchrightClients := patchrightClients s2\<rparr>"
    by (subst b, subst a) simp
  then show ?case using f1 f2 eq by simp
qed

lemma route_emulated:
  "m \<in> set emulated \<Longrightarrow> \<exists>r. routeCdpCommand s now m p sid k = Returned r"
  by (auto simp: routeCdpCommand_def emulated_def Let_def split: option.splits)

lemma sameButClients_trans:
  "s1 = s\<lparr>patchrightClients := patchrightClients s1\<rparr> \<Longrightarrow>
   s2 = s1\<lparr>patchrightClients := patchrightClients s2\<rparr> \<Longrightarrow>
   s2 = s\<lparr>patchrightClients := patchrightClients s2\<rparr>"
  by (metis relay_state.update_convs(3) relay_state.surjective)

lemma autoAttachPass_frame:
  assumes "autoAttachPass s cid cmd = (s', effs)"
  shows "s' = s\<lparr>patchrightClients := patchrightClients s'\<rparr>
    \<and> list_all isClientSend effs
    \<and> map_option ws (map_of (patchrightClients s') k) = map_option ws (map_of (patchrightClients s) k)"
  using assms attachEach_frame [of s "map snd (connectedTargets s)" "Some cid" s' effs k]
  by (auto simp: autoAttachPass_def split: if_splits)

lemma discoverPass_sends: "list_all isClientSend (discoverPass s cid cmd)"
  using sendToPatchright_sends
  by (auto simp: discoverPass_def list_all_iff)

lemma attachToTargetPass_frame:
  assumes "attachToTargetPass s cid cmd r = (s', effs)"
  shows "s' = s\<lparr>patchrightClients := patchrightClients s'\<rparr>
    \<and> list_all isClientSend effs
    \<and> map_option ws (map_of (patchrightClients s') k) = map_option ws (map_of (patchrightClients s) k)"
  using assms sendAttachedToTarget_frame [of s _ "Some cid" False s' effs k]
  by (auto simp: attachToTargetPass_def split: if_splits option.splits)

lemma afterRoute_frame:
  assumes "afterRoute s cid cmd r = (s', effs)"
  shows "s' = s\<lparr>patchrightClients := patchrightClients s'\<rparr>
    \<and> list_all isClientSend effs
    \<and> map_option ws (map_of (patchrightClients s') k) = map_option ws (map_of (patchrightClients s) k)
    \<and> (\<exists>pre. effs = pre @ sendToPatchright s' (Response (cmd_id cmd) (cmd_sessionId cmd) r) (Some cid))"
proof -
  obtain s1 e1 where h1: "autoAttachPass s cid cmd = (s1, e1)"
    by (cases "autoAttachPass s cid cmd")
  obtain s3 e3 where h3: "attachToTargetPass s1 cid cmd r = (s3, e3)"
    by (cases "attachToTargetPass s1 cid cmd r")
  from assms h1 h3 have eq: "s' = s3"
    "effs = e1 @ discoverPass s1 cid cmd @ e3 @
       sendToPatchright s3 (Response (cmd_id cmd) (cmd_sessionId cmd) r) (Some cid)"
    by (auto simp: afterRoute_def)
  note f1 = autoAttachPass_frame [OF h1, of k]
  note f3 = attachToTargetPass_frame [OF h3, of k]
  have "s3 = s\<lparr>patchrightClients := patchrightClients s3\<rparr>"
    using f1 f3 sameButClients_trans by blast
  moreover have "list_all isClientSend effs"
    using f1 f3 discoverPass_sends [of s1 cid cmd]
      sendToPatchright_sends [of s3 "Response (cmd_id cmd) (cmd_sessionId cmd) r" "Some cid"]
    by (simp add: eq)
  moreover have "\<exists>pre. effs = pre @ sendToPatchright s' (Response (cmd_id cmd) (cmd_sessionId cmd) r) (Some cid)"
    unfolding eq by (metis append.assoc)
  ultimately show ?thesis using f1 f3 eq by simp
qed

text \<open>
  Claim C4, as amended. For a command whose method is in the emulation table the relay
  writes nothing to the browser side and stores no pending request: every frame goes to
  clients, and the last one answers the requesting client, with the emulated result when a
  browser-side connection is present and with the not-connected error when none is. With no
  browser-side connection every client command, emulated or forwarded, is answered with the
  not-connected error.
\<close>

theorem emulated_answered_locally:
  assumes "cmd_method cmd \<in> set emulated"
  shows "case client_onMessage s now cid (Parsed cmd) of
           (s', effs, done) \<Rightarrow>
              list_all isClientSend effs \<and> done = []
            \<and> extensionPendingRequests s' = extensionPendingRequests s
            \<and> extensionMessageId s' = extensionMessageId s
            \<and> extensionWs s' = extensionWs s
            \<and> (\<forall>c. cid \<noteq> [] \<and> map_of (patchrightClients s) cid = Some c \<longrightarrow>
                  effs \<noteq> [] \<and>
                  (case extensionWs s of
                     None \<Rightarrow>
                       last effs = ClientSend (ws c)
                         (ErrorResponse (cmd_id cmd) (cmd_sessionId cmd) NotConnected)
                   | Some w \<Rightarrow>
                       (case routeCdpCommand (markActivity now s) now (cmd_method cmd)
                               (cmd_params cmd) (cmd_sessionId cmd) (RouteCont cid cmd) of
                          Returned r \<Rightarrow>
                            last effs = ClientSend (ws c)
                              (Response (cmd_id cmd) (cmd_sessionId cmd) r)
                        | _ \<Rightarrow> False)))
            \<and> (extensionWs s = None \<longrightarrow>
                  client_onMessage s now cid (Parsed other) =
                    (markActivity now s,
                     sendToPatchright s
                       (ErrorResponse (cmd_id other) (cmd_sessionId other) NotConnected) (Some cid),
                     []))"
proof (cases "extensionWs s")
  case None
  have "list_all isClientSend (sendToPatchright (markActivity now s)
      (ErrorResponse (cmd_id cmd) (cmd_sessionId cmd) NotConnected) (Some cid))"
    by (rule sendToPatchright_sends)
  with None show ?thesis
    by (auto simp: client_onMessage_def markActivity_def sendToPatchright_def truthy_def
          split: option.splits)
next
  case (Some w)
  let ?s1 = "markActivity now s"
  obtain r where r: "routeCdpCommand ?s1 now (cmd_method cmd) (cmd_params cmd) (cmd_sessionId cmd)
      (RouteCont cid cmd) = Returned r"
    using route_emulated [OF assms] by blast
  obtain s2 effs where ar: "afterRoute ?s1 cid cmd r = (s2, effs)"
    by (cases "afterRoute ?s1 cid cmd r")
  have com: "client_onMessage s now cid (Parsed cmd) = (s2, effs, [])"
    using Some r ar by (simp add: client_onMessage_def markActivity_def)
  have fr: "s2 = ?s1\<lparr>patchrightClients := patchrightClients s2\<rparr>" "list_all isClientSend effs"
    "\<And>k. map_option ws (map_of (patchrightClients s2) k) = map_option ws (map_of (patchrightClients ?s1) k)"
    "\<exists>pre. effs = pre @ sendToPatchright s2 (Response (cmd_id cmd) (cmd_sessionId cmd) r) (Some cid)"
    using afterRoute_frame [OF ar] by blast+
  have fields: "extensionPendingRequests s2 = extensionPendingRequests s"
    "extensionMessageId s2 = extensionMessageId s" "extensionWs s2 = extensionWs s"
    by (subst fr(1), simp add: markActivity_def)+
  have reply: "effs \<noteq> [] \<and> last effs = ClientSend (ws c) (Response (cmd_id cmd) (cmd_sessionId cmd) r)"
    if "cid \<noteq> []" "map_of (patchrightClients s) cid = Some c" for c
  proof -
    from fr(3) [of cid] that obtain c' where
      "map_of (patchrightClients s2) cid = Some c'" "ws c' = ws c"
      by (auto simp: markActivity_def)
    then have "sendToPatchright s2 (Response (cmd_id cmd) (cmd_sessionId cmd) r) (Some cid)
        = [ClientSend (ws c) (Response (cmd_id cmd) (cmd_sessionId cmd) r)]"
      using that by (simp add: sendToPatchright_def truthy_def)
    with fr(4) show ?thesis by auto
  qed
  show ?thesis
    using Some fr(2) fields reply r by (simp add: com)
qed

theorem emulated_answered_locally_witness:
  "cmd_method getVersion \<in> set emulated \<and>
   client_onMessage exState 9 ''c1'' (Parsed getVersion) =
     (exState\<lparr>lastActivityAt := 9\<rparr>, [ClientSend 2 (Response 1 None VersionInfo)], [])"
  using emulated_answered_locally [where cmd = getVersion and s = exState and now = 9
      and cid = "''c1''" and other = getVersion]
  by (simp add: getVersion_def emulated_def exState_def client_onMessage_def markActivity_def
        routeCdpCommand_def afterRoute_def autoAttachPass_def discoverPass_def
        attachToTargetPass_def sendToPatchright_def truthy_def)

text \<open>
  The claim as stated fails: \<^verbatim>\<open>Browser.getVersion\<close> needs no forwarding, and with no
  browser-side connection the client is sent the not-connected error for it.
\<close>

theorem emulated_refused_when_disconnected:
  "cmd_method getVersion \<in> set emulated \<and>
   run init_state idleTrace =
     (init_state\<lparr>lastActivityAt := 2, patchrightClients :=
        [(''c1'', \<lparr>client_id = ''c1'', ws = 2, knownTargets = {}\<rparr>)]\<rparr>,
      [ClientSend 2 (ErrorResponse 1 None NotConnected)])"
  by (simp add: getVersion_def emulated_def idleTrace_def init_state_def step_def handle_def
        client_onOpen_def client_onMessage_def markActivity_def sendToPatchright_def truthy_def
        resume_def)

subsection \<open>Timeouts and late replies\<close>

lemma pendingStep_refl: "pendingStep s s"
  by (simp add: pendingStep_def)

lemma pendingStep_same:
  "extensionMessageId s' = extensionMessageId s \<Longrightarrow>
   extensionPendingRequests s' = extensionPendingRequests s \<Longrightarrow> pendingStep s s'"
  by (simp add: pendingStep_def)

lemma pendingStep_counter:
  "pendingStep s s' \<Longrightarrow> extensionMessageId s \<le> extensionMessageId s'"
  unfolding pendingStep_def by (elim conjE)

lemma pendingStep_record:
  assumes "pendingStep s s'" "i \<le> extensionMessageId s"
  shows "map_of (extensionPendingRequests s') i = map_of (extensionPendingRequests s) i
   \<or> map_of (extensionPendingRequests s') i = None"
proof -
  from assms(1) have "\<forall>i. i \<le> extensionMessageId s \<longrightarrow>
          map_of (extensionPendingRequests s') i = map_of (extensionPendingRequests s) i
        \<or> map_of (extensionPendingRequests s') i = None"
    unfolding pendingStep_def by (elim conjE)
  from this [rule_format, OF assms(2)] show ?thesis .
qed

lemma pendingStep_trans:
  assumes "pendingStep s s1" "pendingStep s1 s2"
  shows "pendingStep s s2"
  unfolding pendingStep_def
proof (intro conjI allI impI)
  show "extensionMessageId s \<le> extensionMessageId s2"
    using pendingStep_counter [OF assms(1)] pendingStep_counter [OF assms(2)] by (rule order_trans)
next
  fix i assume i: "i \<le> extensionMessageId s"
  from i pendingStep_counter [OF assms(1)] have i1: "i \<le> extensionMessageId s1"
    by (rule order_trans)
  from pendingStep_record [OF assms(1) i] pendingStep_record [OF assms(2) i1]
  show "map_of (extensionPendingRequests s2) i = map_of (extensionPendingRequests s) i
        \<or> map_of (extensionPendingRequests s2) i = None"
    by (elim disjE) simp_all
qed

lemma pendingStep_delete:
  "extensionMessageId s' = extensionMessageId s \<Longrightarrow>
   extensionPendingRequests s' = AList.delete j (extensionPendingRequests s) \<Longrightarrow> pendingStep s s'"
  by (simp add: pendingStep_def delete_conv')

lemma pendingStep_clear:
  "extensionMessageId s' = extensionMessageId s \<Longrightarrow>
   extensionPendingRequests s' = [] \<Longrightarrow> pendingStep s s'"
  by (simp add: pendingStep_def)

lemma sendToExtension_pendingStep:
  "sendToExtension s now m sid im ip t k = Inr (s1, effs) \<Longrightarrow> pendingStep s s1"
  by (auto simp: sendToExtension_def pendingStep_def markActivity_def Let_def update_conv'
        split: option.splits)

lemma forwardToExtension_pendingStep:
  assumes "forwardToExtension s now sid m p k = Awaiting s1 effs"
  shows "pendingStep s s1"
proof (cases "sendToExtension s now ''forwardCDPCommand'' sid m p None k")
  case (Inl e)
  with assms show ?thesis by (simp add: forwardToExtension_def)
next
  case (Inr x)
  obtain s' e' where "x = (s', e')" by (cases x)
  with Inr assms have "sendToExtension s now ''forwardCDPCommand'' sid m p None k = Inr (s1, effs)"
    by (simp add: forwardToExtension_def)
  then show ?thesis by (rule sendToExtension_pendingStep)
qed

lemma routeCdpCommand_pendingStep:
  "routeCdpCommand s now m p sid k = Awaiting s1 effs \<Longrightarrow> pendingStep s s1"
  using forwardToExtension_pendingStep
  by (auto simp: routeCdpCommand_def Let_def split: if_splits option.splits)

lemma sameButClients_pending:
  assumes "s1 = s\<lparr>patchrightClients := cl\<rparr>"
  shows "pendingStep s s1"
  by (rule pendingStep_same) (simp_all add: assms)

lemma afterRoute_pendingStep:
  assumes "afterRoute s cid cmd r = (s1, effs)"
  shows "pendingStep s s1"
proof -
  from afterRoute_frame [OF assms] have "s1 = s\<lparr>patchrightClients := patchrightClients s1\<rparr>"
    by blast
  then show ?thesis by (rule sameButClients_pending)
qed

lemma markActivity_pendingStep: "pendingStep s (markActivity now s)"
  by (rule pendingStep_same) (simp_all add: markActivity_def)

lemma resume_pendingStep:
  assumes "resume s k outcome = (s1, effs)"
  shows "pendingStep s s1"
proof -
  consider cid cmd r where "afterRoute s cid cmd r = (s1, effs)" | "s1 = s"
    using assms by (auto simp: resume_def split: cont.splits sum.splits)
  then show ?thesis
    using afterRoute_pendingStep pendingStep_refl by cases blast+
qed

lemma resumeAll_pendingStep:
  "resumeAll s done = (s1, effs) \<Longrightarrow> pendingStep s s1"
proof (induction "done" arbitrary: s s1 effs)
  case Nil
  then show ?case by (simp add: pendingStep_refl)
next
  case (Cons x rest)
  obtain k outcome where x: "x = (k, outcome)" by (cases x)
  obtain s2 e2 where h: "resume s k outcome = (s2, e2)" by (cases "resume s k outcome")
  obtain s3 e3 where r: "resumeAll s2 rest = (s3, e3)" by (cases "resumeAll s2 rest")
  from Cons.prems x h r have "s1 = s3" by simp
  with pendingStep_trans [OF resume_pendingStep [OF h] Cons.IH [OF r]] show ?case by simp
qed

lemma createPage_pendingStep:
  assumes "createPage s now name = (s1, effs, done)"
  shows "pendingStep s s1"
proof (cases "sendToExtension s now ''forwardCDPCommand'' None ''Target.createTarget''
         (Some createParams) None (PageCreateCont name)")
  case (Inl e)
  with assms have "s1 = s" by (simp add: createPage_def)
  then show ?thesis by (simp add: pendingStep_refl)
next
  case (Inr x)
  obtain s' e' where "x = (s', e')" by (cases x)
  with Inr assms have "sendToExtension s now ''forwardCDPCommand'' None ''Target.createTarget''
         (Some createParams) None (PageCreateCont name) = Inr (s1, effs)"
    by (simp add: createPage_def)
  then show ?thesis by (rule sendToExtension_pendingStep)
qed

lemma postPages_pendingStep:
  assumes run: "postPages s now name = (s1, effs, done)"
  shows "pendingStep s s1"
proof -
  let ?s1 = "markActivity now s"
  note m = markActivity_pendingStep [of s now]
  consider (same) "s1 = ?s1"
    | (reuse) target n where
        "sendToExtension ?s1 now ''forwardCDPCommand'' None ''Target.activateTarget''
           (Some (activateParams (targetId target))) None (PageReuseCont n target) = Inr (s1, effs)"
    | (stale) n where
        "createPage (?s1\<lparr>namedPages := AList.delete n (namedPages ?s1)\<rparr>) now n = (s1, effs, done)"
    | (create) n where "createPage ?s1 now n = (s1, effs, done)"
    using run
    by (auto simp: postPages_def Let_def split: if_splits option.splits sum.splits)
  then show ?thesis
  proof cases
    case same
    with m show ?thesis by simp
  next
    case reuse
    from pendingStep_trans [OF m sendToExtension_pendingStep [OF reuse]] show ?thesis .
  next
    case stale
    have "pendingStep s (?s1\<lparr>namedPages := AList.delete n (namedPages ?s1)\<rparr>)"
      by (rule pendingStep_same) (simp_all add: markActivity_def)
    from pendingStep_trans [OF this createPage_pendingStep [OF stale]] show ?thesis .
  next
    case create
    from pendingStep_trans [OF m createPage_pendingStep [OF create]] show ?thesis .
  qed
qed

lemma afterSleep_pendingStep:
  assumes run: "afterSleep s now name result = (s1, effs, done)"
  shows "pendingStep s s1"
proof -
  consider (fail) "extensionMessageId s1 = extensionMessageId s"
      "extensionPendingRequests s1 = extensionPendingRequests s"
    | (bound) sid target where
        "sendToExtension (s\<lparr>namedPages := AList.update name sid (namedPages s)\<rparr>) now
           ''forwardCDPCommand'' None ''Target.activateTarget''
           (Some (activateParams (targetId target))) None (PageActivateCont name target) = Inr (s1, effs)"
    using run
    by (auto simp: afterSleep_def Let_def split: jvalue.splits if_splits option.splits sum.splits prod.splits)
  then show ?thesis
  proof cases
    case fail
    then show ?thesis by (rule pendingStep_same)
  next
    case bound
    have "pendingStep s (s\<lparr>namedPages := AList.update name sid (namedPages s)\<rparr>)"
      by (rule pendingStep_same) simp_all
    from pendingStep_trans [OF this sendToExtension_pendingStep [OF bound]] show ?thesis .
  qed
qed

lemma client_onMessage_pendingStep:
  assumes run: "client_onMessage s now cid data = (s1, effs, done)"
  shows "pendingStep s s1"
proof -
  let ?s1 = "markActivity now s"
  note m = markActivity_pendingStep [of s now]
  consider (same) "s1 = ?s1"
    | (route) cmd r where "afterRoute ?s1 cid cmd r = (s1, effs)"
    | (await) cmd where "routeCdpCommand ?s1 now (cmd_method cmd) (cmd_params cmd)
          (cmd_sessionId cmd) (RouteCont cid cmd) = Awaiting s1 effs"
    using run
    by (auto simp: client_onMessage_def Let_def
          split: parsed.splits if_splits route_outcome.splits prod.splits)
  then show ?thesis
  proof cases
    case same
    with m show ?thesis by simp
  next
    case route
    from pendingStep_trans [OF m afterRoute_pendingStep [OF route]] show ?thesis .
  next
    case await
    from pendingStep_trans [OF m routeCdpCommand_pendingStep [OF await]] show ?thesis .
  qed
qed

lemma ext_onMessage_pendingStep:
  assumes run: "ext_onMessage s now w data = (s1, effs, done)"
  shows "pendingStep s s1"
proof -
  let ?s1 = "markActivity now s"
  consider (same) "extensionMessageId s1 = extensionMessageId s"
      "extensionPendingRequests s1 = extensionPendingRequests s"
    | (del) j where "extensionMessageId s1 = extensionMessageId s"
      "extensionPendingRequests s1 = AList.delete j (extensionPendingRequests s)"
    | (attach) sid info where
      "sendAttachedToTarget (?s1\<lparr>connectedTargets := AList.update sid
           \<lparr>sessionId = sid, targetId = ti_targetId info, targetInfo = info\<rparr>
           (connectedTargets ?s1)\<rparr>)
         \<lparr>sessionId = sid, targetId = ti_targetId info, targetInfo = info\<rparr> None False = (s1, effs)"
    using run
    by (auto simp: ext_onMessage_def Let_def markActivity_def
          split: parsed.splits ext_message.splits inner_event.splits option.splits prod.splits)
  then show ?thesis
  proof cases
    case same
    then show ?thesis by (rule pendingStep_same)
  next
    case del
    then show ?thesis by (rule pendingStep_delete)
  next
    case (attach sid info)
    let ?s2 = "?s1\<lparr>connectedTargets := AList.update sid
           \<lparr>sessionId = sid, targetId = ti_targetId info, targetInfo = info\<rparr>
           (connectedTargets ?s1)\<rparr>"
    have a: "pendingStep s ?s2" by (rule pendingStep_same) (simp_all add: markActivity_def)
    from sendAttachedToTarget_frame [OF attach]
    have "s1 = ?s2\<lparr>patchrightClients := patchrightClients s1\<rparr>" by blast
    from pendingStep_trans [OF a sameButClients_pending [OF this]] show ?thesis .
  qed
qed

lemma handle_pendingStep:
  assumes "handle s now ev = (s1, effs, done)"
  shows "pendingStep s s1"
proof (cases ev)
  case (ClientOpen cid w)
  with assms show ?thesis
    by (intro pendingStep_same) (auto simp: handle_def client_onOpen_def markActivity_def Let_def split: if_splits)
next
  case (ClientMessage cid data)
  with assms client_onMessage_pendingStep show ?thesis by (simp add: handle_def)
next
  case (ClientClose cid)
  with assms show ?thesis
    by (intro pendingStep_same) (auto simp: handle_def client_onClose_def markActivity_def Let_def)
next
  case (ExtOpen w)
  with assms have "extensionMessageId s1 = extensionMessageId s"
    "extensionPendingRequests s1 = extensionPendingRequests s \<or> extensionPendingRequests s1 = []"
    by (auto simp: handle_def ext_onOpen_def markActivity_def Let_def split: option.splits)
  then show ?thesis using pendingStep_same pendingStep_clear by blast
next
  case (ExtMessage w data)
  with assms ext_onMessage_pendingStep show ?thesis by (simp add: handle_def)
next
  case (ExtClose w)
  with assms have "extensionMessageId s1 = extensionMessageId s"
    "extensionPendingRequests s1 = extensionPendingRequests s \<or> extensionPendingRequests s1 = []"
    by (auto simp: handle_def ext_onClose_def markActivity_def Let_def split: if_splits)
  then show ?thesis using pendingStep_same pendingStep_clear by blast
next
  case (TimerFired i)
  with assms have "extensionMessageId s1 = extensionMessageId s"
    "extensionPendingRequests s1 = extensionPendingRequests s
       \<or> extensionPendingRequests s1 = AList.delete i (extensionPendingRequests s)"
    by (auto simp: handle_def timerFired_def split: option.splits)
  then show ?thesis using pendingStep_same pendingStep_delete by blast
next
  case (SleepDone name result)
  with assms afterSleep_pendingStep show ?thesis by (simp add: handle_def)
next
  case GetPages
  with assms show ?thesis
    by (intro pendingStep_same) (auto simp: handle_def getPages_def markActivity_def Let_def)
next
  case (PostPages name)
  with assms postPages_pendingStep show ?thesis by (simp add: handle_def)
next
  case (DeletePage name)
  with assms show ?thesis
    by (intro pendingStep_same) (auto simp: handle_def deletePage_def markActivity_def Let_def)
qed

lemma step_pendingStep:
  assumes "step s now ev = (s2, effs)"
  shows "pendingStep s s2"
proof -
  obtain s1 e1 "done" where h: "handle s now ev = (s1, e1, done)"
    by (cases "handle s now ev") auto
  obtain s2' e2 where r: "resumeAll s1 done = (s2', e2)" by (cases "resumeAll s1 done")
  from assms h r have "s2 = s2'" by (simp add: step_def)
  with pendingStep_trans [OF handle_pendingStep [OF h] resumeAll_pendingStep [OF r]]
  show ?thesis by simp
qed

lemma run_pendingStep: "pendingStep s (fst (run s es))"
proof (induction es arbitrary: s)
  case Nil
  then show ?case by (simp add: pendingStep_refl)
next
  case (Cons x es)
  obtain now ev where x: "x = (now, ev)" by (cases x)
  obtain s1 e1 where h: "step s now ev = (s1, e1)" by (cases "step s now ev")
  have "fst (run s (x # es)) = fst (run s1 es)" by (simp add: x h split: prod.splits)
  with pendingStep_trans [OF step_pendingStep [OF h] Cons.IH [of s1]] show ?case by simp
qed

lemma late_reply_dropped:
  assumes "map_of (extensionPendingRequests s) i = None"
  shows "ext_onMessage s now w (Parsed (ExtResponse i r e)) = (markActivity now s, [], [])"
  using assms by (simp add: ext_onMessage_def markActivity_def)

text \<open>
  Claim C5, as amended. A request sent to the connected extension without an explicit
  timeout is stored under a fresh id with a timeout of 30000 ms. Whatever events follow, if
  its record is still pending when its timer fires (no reply has arrived), the caller is
  rejected with the timeout error and the record is discarded. Whatever events follow
  that, a reply with that id resolves nothing and writes no frame; of the state it changes
  the time of the last activity and nothing else.
\<close>

theorem request_timeout:
  assumes conn: "extensionWs s = Some w"
  shows "case sendToExtension s now m sid im ip None k of
           Inl err \<Rightarrow> False
         | Inr (s1, effs) \<Rightarrow>
             effs = [ExtSend w (ExtRequest (extensionMessageId s + 1) m sid im ip)]
           \<and> map_of (extensionPendingRequests s1) (extensionMessageId s + 1)
               = Some \<lparr>p_cont = k, p_timeout = 30000, p_method = m\<rparr>
           \<and> (\<forall>es p. map_of (extensionPendingRequests (fst (run s1 es))) (extensionMessageId s + 1)
                    = Some p \<longrightarrow>
                (case timerFired (fst (run s1 es)) (extensionMessageId s + 1) of
                   (s3, effs3, done) \<Rightarrow>
                     effs3 = [] \<and> done = [(k, Inl (RequestTimeout 30000 m))]
                   \<and> map_of (extensionPendingRequests s3) (extensionMessageId s + 1) = None
                   \<and> (\<forall>es'. ext_onMessage (fst (run s3 es')) now' w'
                              (Parsed (ExtResponse (extensionMessageId s + 1) r e))
                          = (markActivity now' (fst (run s3 es')), [], []))))"
proof -
  let ?i = "extensionMessageId s + 1"
  let ?rec = "\<lparr>p_cont = k, p_timeout = 30000, p_method = m\<rparr>"
  define s1 where "s1 = s\<lparr>lastActivityAt := now, extensionMessageId := ?i,
      extensionPendingRequests := AList.update ?i ?rec (extensionPendingRequests s)\<rparr>"
  have send: "sendToExtension s now m sid im ip None k
      = Inr (s1, [ExtSend w (ExtRequest ?i m sid im ip)])"
    unfolding s1_def using sendToExtension_connected [OF conn, of now m sid im ip None k] by simp
  have stored: "map_of (extensionPendingRequests s1) ?i = Some ?rec"
    by (simp add: s1_def update_conv')
  have cnt: "?i \<le> extensionMessageId s1" by (simp add: s1_def)
  have later: "case timerFired (fst (run s1 es)) ?i of
       (s3, effs3, done) \<Rightarrow>
         effs3 = [] \<and> done = [(k, Inl (RequestTimeout 30000 m))]
       \<and> map_of (extensionPendingRequests s3) ?i = None
       \<and> (\<forall>es'. ext_onMessage (fst (run s3 es')) now' w' (Parsed (ExtResponse ?i r e))
              = (markActivity now' (fst (run s3 es')), [], []))"
    if pend: "map_of (extensionPendingRequests (fst (run s1 es))) ?i = Some p" for es p
  proof -
    let ?s2 = "fst (run s1 es)"
    note st = run_pendingStep [of s1 es]
    from pendingStep_record [OF st cnt] pend stored have p: "p = ?rec" by auto
    define s3 where "s3 = ?s2\<lparr>extensionPendingRequests :=
        AList.delete ?i (extensionPendingRequests ?s2)\<rparr>"
    have fired: "timerFired ?s2 ?i = (s3, [], [(k, Inl (RequestTimeout 30000 m))])"
      using pend p by (simp add: timerFired_def s3_def)
    have gone: "map_of (extensionPendingRequests s3) ?i = None"
      by (simp add: s3_def map_of_delete_same)
    have cnt3: "?i \<le> extensionMessageId s3"
      using order_trans [OF cnt pendingStep_counter [OF st]] by (simp add: s3_def)
    have dropped: "ext_onMessage (fst (run s3 es')) now' w' (Parsed (ExtResponse ?i r e))
              = (markActivity now' (fst (run s3 es')), [], [])" for es'
    proof -
      from pendingStep_record [OF run_pendingStep [of s3 es'] cnt3] gone
      have "map_of (extensionPendingRequests (fst (run s3 es'))) ?i = None" by auto
      then show ?thesis by (rule late_reply_dropped)
    qed
    show ?thesis unfolding fired using gone dropped by simp
  qed
  show ?thesis unfolding send sum.case prod.case using stored later by blast
qed

theorem request_timeout_witness:
  "extensionWs exState = Some 1 \<and>
   (case sendToExtension exState 9 ''forwardCDPCommand'' None ''Page.enable'' None None
           (PageCreateCont ''y'') of
      Inl err \<Rightarrow> False
    | Inr (s1, effs) \<Rightarrow>
        effs = [ExtSend 1 (ExtRequest 4 ''forwardCDPCommand'' None ''Page.enable'' None)]
      \<and> map_of (extensionPendingRequests (fst (run s1 [(10, GetPages)]))) 4
          = Some \<lparr>p_cont = PageCreateCont ''y'', p_timeout = 30000,
                    p_method = ''forwardCDPCommand''\<rparr>
      \<and> snd (snd (timerFired (fst (run s1 [(10, GetPages)])) 4))
          = [(PageCreateCont ''y'', Inl (RequestTimeout 30000 ''forwardCDPCommand''))]
      \<and> ext_onMessage
            (fst (run (fst (timerFired (fst (run s1 [(10, GetPages)])) 4)) [(11, DeletePage ''demo'')]))
            12 1 (Parsed (ExtResponse 4 JUndefined None))
          = (markActivity 12
               (fst (run (fst (timerFired (fst (run s1 [(10, GetPages)])) 4))
                      [(11, DeletePage ''demo'')])), [], []))"
  using request_timeout [where s = exState and w = 1 and now = 9
      and m = "''forwardCDPCommand''" and sid = None and im = "''Page.enable''" and ip = None
      and k = "PageCreateCont ''y''" and now' = 12 and w' = 1 and r = JUndefined and e = None]
  by (simp add: exState_def sendToExtension_def markActivity_def timerFired_def ext_onMessage_def
        step_def handle_def getPages_def deletePage_def)

text \<open>
  The claim as stated fails on its last words: once the timer of request 3 has fired, the
  reply to it finds no record and is dropped, and yet the state after the reply differs
  from the state before it, in the time of the last activity.
\<close>

theorem late_reply_touches_clock:
  "map_of (extensionPendingRequests (fst (timerFired exState 3))) 3 = None
   \<and> snd (snd (timerFired exState 3))
       = [(PageCreateCont ''x'', Inl (RequestTimeout 30000 ''forwardCDPCommand''))]
   \<and> fst (ext_onMessage (fst (timerFired exState 3)) 9 1
              (Parsed (ExtResponse 3 JUndefined None)))
       \<noteq> fst (timerFired exState 3)"
  by (simp add: exState_def timerFired_def ext_onMessage_def markActivity_def)

subsection \<open>Get-or-create of a named page, twice\<close>













subsection \<open>Deleting a named page\<close>



subsection \<open>Attached-to-target notifications\<close>










lemma isAttachedFor_attachedEvent [simp]:
  "isAttachedFor w t (ClientSend w' (attachedEvent target wfd))
     \<longleftrightarrow> w' = w \<and> ti_targetId (targetInfo target) = t"
  by (simp add: isAttachedFor_def attachedEvent_def)






lemma isAttached_simps [simp]:
  "isAttached (ClientSend w (Response i sid r)) = False"
  "isAttached (ClientSend w (ErrorResponse i sid er)) = False"
  "isAttached (ClientSend w (Event (EvTargetCreated info))) = False"
  "isAttached (ClientSend w (Event (EvDetachedFromTarget d))) = False"
  "isAttached (ClientSend w (Event (EvTargetInfoChanged info))) = False"
  "isAttached (ClientSend w (Event (EvForwarded outer m p))) = False"
  "isAttached (ClientCloseEff w code reason) = False"
  "isAttached (ExtSend w q) = False"
  "isAttached (ExtCloseEff w code reason) = False"
  "isAttached (HttpResponse code b) = False"
  "isAttached (StartSleep n name v) = False"
  by (simp_all add: isAttached_def)

lemma sendToPatchright_silent:
  assumes "\<not> isAttached (ClientSend 0 m)"
  shows "\<not> list_ex isAttached (sendToPatchright s m c)"
proof -
  have "isAttached (ClientSend w m) = isAttached (ClientSend 0 m)" for w
    by (simp add: isAttached_def)
  with assms show ?thesis
    by (auto simp: sendToPatchright_def list_ex_iff split: option.splits)
qed

lemma list_ex_append_silent [simp]:
  "list_ex isAttached (a @ b) \<longleftrightarrow> list_ex isAttached a \<or> list_ex isAttached b"
  by (simp add: list_ex_iff) blast



lemma sameButClients_refl: "s = s\<lparr>patchrightClients := patchrightClients s\<rparr>"
  by simp








lemma discoverPass_silent: "\<not> list_ex isAttached (discoverPass s cid cmd)"
proof -
  have "\<not> list_ex isAttached (sendToPatchright s (Event (EvTargetCreated info)) c)" for info c
    by (rule sendToPatchright_silent) simp
  then show ?thesis
    by (auto simp: discoverPass_def list_ex_iff)
qed





lemma wfTargets_same:
  "connectedTargets s1 = connectedTargets s \<Longrightarrow> wfTargets s \<Longrightarrow> wfTargets s1"
  by (simp add: wfTargets_def)










































lemma discover_step_silent:
  assumes "cmd_method cmd = ''Target.setDiscoverTargets''"
  shows "\<not> list_ex isAttached (snd (step s now (ClientMessage cid (Parsed cmd))))"
proof -
  let ?s1 = "markActivity now s"
  have silent: "\<not> list_ex isAttached (sendToPatchright ?s1 (ErrorResponse i sid e) c)" for i sid e c
    by (rule sendToPatchright_silent) simp
  have reply: "\<not> list_ex isAttached (sendToPatchright ?s1 (Response i sid r) c)" for i sid r c
    by (rule sendToPatchright_silent) simp
  have route: "routeCdpCommand ?s1 now (cmd_method cmd) (cmd_params cmd) (cmd_sessionId cmd)
      (RouteCont cid cmd) = Returned EmptyObject"
    by (simp add: routeCdpCommand_def assms)
  have after: "afterRoute ?s1 cid cmd EmptyObject =
      (?s1, discoverPass ?s1 cid cmd @
            sendToPatchright ?s1 (Response (cmd_id cmd) (cmd_sessionId cmd) EmptyObject) (Some cid))"
    using assms by (simp add: afterRoute_def autoAttachPass_def attachToTargetPass_def)
  show ?thesis
  proof (cases "extensionWs s")
    case None
    with silent show ?thesis
      by (simp add: step_def handle_def client_onMessage_def markActivity_def Let_def)
  next
    case (Some w)
    with route after reply discoverPass_silent [of ?s1 cid cmd] show ?thesis
      by (simp add: step_def handle_def client_onMessage_def markActivity_def Let_def)
  qed
qed






























text \<open>
  The statement above speaks of target ids that the browser side attaches under one
  session id. In the trace below the tab \<open>T1\<close> is attached as \<open>S1\<close>, detached, and
  attached again as \<open>S2\<close> while a client is connected: the client was sent the
  notification for \<open>S1\<close>, and neither the second attach event nor its
  \<^verbatim>\<open>Target.setAutoAttach\<close> makes the relay send it one for \<open>S2\<close>.
\<close>

lemma reattached_under_new_session:
  "map fst (connectedTargets (fst (run init_state reattachTrace))) = [''S2'']
   \<and> filter isAttached (snd (run init_state reattachTrace))
       = [ClientSend 2 (Event (EvAttachedToTarget ''S1'' tabInfo False))]
   \<and> sessionCount 2 ''S2'' ''T1'' (snd (run init_state reattachTrace)) = 0
   \<and> \<not> reportedOnlyAs reattachTrace ''T1'' ''S2''"
  by (simp add: reattachTrace_def setAutoAttach_def tabInfo_def isAttached_def
        sessionCount_def isAttachedSession_def reportedOnlyAs_def reportedAs_def reported_def
        attachedEvent_def noteTarget_def init_state_def step_def handle_def
        client_onOpen_def client_onMessage_def ext_onOpen_def ext_onMessage_def
        markActivity_def truthy_def sendAttachedToTarget_def sendToPatchright_def
        routeCdpCommand_def afterRoute_def autoAttachPass_def discoverPass_def
        attachToTargetPass_def Let_def)


end
